theory Spec2Isabelle
  imports Complex_Main "HOL-Library.Word"
begin

section \<open>Data model (types.ts)\<close>

text \<open>
  A JavaScript string is a sequence of UTF-16 code units. A literal of the source is
  written \<open>js ''...''\<close>; the degree sign of \<open>formatTemp\<close> is the code unit \<open>0xB0\<close>.
\<close>

type_synonym jsstring = "16 word list"

definition js :: "string \<Rightarrow> jsstring" where
  "js = map (\<lambda>c. of_nat (of_char c))"

text \<open>
  The numeric fields of the records hold finite values, written as exact rationals; the
  program only stores, copies and compares them. Its one computation on numbers, the
  temperature display, is modelled on IEEE doubles in its own section. A \<open>Date\<close> is the
  reading of the clock, in milliseconds.
\<close>

type_synonym number = rat
type_synonym Date = nat

text \<open>The interface \<open>WeatherResponse\<close>, with its three nested object types.\<close>

record ResponseMain =
  temp :: number
  feels_like :: number
  humidity :: number

record ResponseCondition =
  description :: jsstring
  icon :: jsstring

record ResponseWind =
  speed :: number

record WeatherResponse =
  main :: ResponseMain
  weather :: "ResponseCondition list"
  wind :: ResponseWind
  name :: jsstring
  id' :: number

text \<open>
  The interface \<open>WeatherData\<close>. Its fields \<open>id\<close>, \<open>description\<close>, \<open>humidity\<close> and
  \<open>icon\<close> share their names with fields of the response; from here on the plain names
  are the fields of \<open>WeatherData\<close> and those of the response are written qualified.
\<close>

record WeatherData =
  id' :: number
  city :: jsstring
  temperature :: number
  feelsLike :: number
  description :: jsstring
  humidity :: number
  windSpeed :: number
  icon :: jsstring
  lastUpdated :: Date

section \<open>Component state (App.tsx, the useState hooks)\<close>

text \<open>
  The six state variables of \<open>App\<close>. A handler is modelled as one step from the state
  it is called on to the state after its last setter: the state its closure reads and the
  \<open>prev\<close> of its functional updates are the same, and two handlers in flight at the same
  time are not interleaved.
\<close>

record app_state =
  weatherData :: "WeatherData list"
  loading :: bool
  searchCity :: jsstring
  error :: jsstring
  isCelsius :: bool
  retrying :: bool

definition initial_state :: app_state where
  "initial_state =
     \<lparr>weatherData = [], loading = True, searchCity = [], error = [],
      isCelsius = True, retrying = False\<rparr>"

definition DEFAULT_CITIES :: "jsstring list" where
  "DEFAULT_CITIES = [js ''London'', js ''New York'', js ''Tokyo'', js ''Paris'', js ''Sydney'']"

section \<open>Temperature display\<close>

text \<open>
  A card shows \<open>formatTemp(convertTemp(weather.temperature))\<close>; the flag \<open>isCelsius\<close>
  that both functions read is a field of the state.
\<close>

text \<open>
  A JavaScript number is an IEEE 754 double: \<open>Finite x\<close> is the double of value \<open>x\<close>,
  beside the two infinities and NaN. The sign of a zero is not kept: the display never
  divides by a zero or otherwise reads its sign, and both zeros are printed as 0.
\<close>

datatype double = NaN | PosInf | NegInf | Finite rat

text \<open>
  \<open>fl x\<close> is the double that an operation with the exact result \<open>x\<close> returns: the
  nearest value with a significand of 53 bits and an exponent of at least \<open>-1022\<close>, of two
  equally near ones the one with the even significand, and an infinity from \<open>2^1024\<close>
  on. \<open>ilog2 x\<close> is the binary exponent of a positive \<open>x\<close>.
\<close>

definition pow2 :: "int \<Rightarrow> rat" where
  "pow2 e = (if 0 \<le> e then 2 ^ nat e else 1 / 2 ^ nat (- e))"

function bit_length :: "int \<Rightarrow> nat" where
  "bit_length n = (if n \<le> 0 then 0 else Suc (bit_length (n div 2)))"
  by pat_completeness auto
termination
  by (relation "measure nat") auto

declare bit_length.simps [simp del]

definition ilog2 :: "rat \<Rightarrow> int" where
  "ilog2 x =
     (case quotient_of x of (p, q) \<Rightarrow>
        (let e = int (bit_length p) - int (bit_length q)
         in if pow2 e \<le> x then e else e - 1))"

definition round_half_even :: "rat \<Rightarrow> int" where
  "round_half_even y =
     (let f = \<lfloor>y\<rfloor>; r = y - of_int f
      in if r < 1 / 2 then f else if 1 / 2 < r then f + 1 else if even f then f else f + 1)"

definition fl :: "rat \<Rightarrow> double" where
  "fl x =
     (if x = 0 then Finite 0
      else
        (let a = \<bar>x\<bar>;
             e = max (ilog2 a) (- 1022);
             ulp = pow2 (e - 52);
             y = of_int (round_half_even (a / ulp)) * ulp
         in if pow2 1024 \<le> y then (if x < 0 then NegInf else PosInf)
            else Finite (if x < 0 then - y else y)))"

text \<open>
  The three operations of \<open>convertTemp\<close>. Their right operands are the literals 9, 5 and
  32 of the source: finite and positive, so that an infinity or NaN on the left is the
  result.
\<close>

definition Number_multiply :: "double \<Rightarrow> rat \<Rightarrow> double" where
  "Number_multiply x k = (case x of Finite a \<Rightarrow> fl (a * k) | _ \<Rightarrow> x)"

definition Number_divide :: "double \<Rightarrow> rat \<Rightarrow> double" where
  "Number_divide x k = (case x of Finite a \<Rightarrow> fl (a / k) | _ \<Rightarrow> x)"

definition Number_add :: "double \<Rightarrow> rat \<Rightarrow> double" where
  "Number_add x k = (case x of Finite a \<Rightarrow> fl (a + k) | _ \<Rightarrow> x)"

definition convertTemp :: "app_state \<Rightarrow> double \<Rightarrow> double" where
  "convertTemp s celsius =
     (if isCelsius s then celsius
      else Number_add (Number_divide (Number_multiply celsius 9) 5) 32)"

text \<open>
  \<open>Math.round\<close> returns NaN and the infinities as they are, and for a finite argument
  the integer closest to it, of two equally close ones the one towards plus infinity. Its
  results are the values of the type \<open>integral\<close>.
\<close>

datatype integral = Integer int | NotANumber | PlusInfinity | MinusInfinity

definition Math_round :: "double \<Rightarrow> integral" where
  "Math_round x =
     (case x of
        NaN \<Rightarrow> NotANumber
      | PosInf \<Rightarrow> PlusInfinity
      | NegInf \<Rightarrow> MinusInfinity
      | Finite a \<Rightarrow> Integer \<lfloor>a + 1 / 2\<rfloor>)"

text \<open>
  The string a template literal makes of such a value. An integer is printed with the
  fewest significant digits that still denote its double (\<open>shortest\<close>; of two such
  numbers the one closer to the value, as V8 chooses), as plain digits up to 21 digits and
  in exponent notation beyond.
\<close>

function digits :: "int \<Rightarrow> jsstring" where
  "digits n =
     (if n < 10 then [of_int (48 + n)] else digits (n div 10) @ [of_int (48 + n mod 10)])"
  by pat_completeness auto
termination
  by (relation "measure nat") auto

declare digits.simps [simp del]

definition candidates :: "int \<Rightarrow> int list" where
  "candidates v =
     concat (map (\<lambda>k. let p = 10 ^ (length (digits v) - k); lo = (v div p) * p; hi = lo + p
                      in if v - lo \<le> hi - v then [lo, hi] else [hi, lo])
               [1..<Suc (length (digits v))])"

definition shortest :: "int \<Rightarrow> int" where
  "shortest v =
     (case find (\<lambda>c. fl (of_int c) = Finite (of_int v)) (candidates v) of
        Some c \<Rightarrow> c
      | None \<Rightarrow> v)"

function significand :: "int \<Rightarrow> int" where
  "significand n = (if n \<le> 0 \<or> n mod 10 \<noteq> 0 then n else significand (n div 10))"
  by pat_completeness auto
termination
  by (relation "measure nat") auto

declare significand.simps [simp del]

definition decimal :: "int \<Rightarrow> jsstring" where
  "decimal v =
     (let c = shortest v; n = length (digits c)
      in if n \<le> 21 then digits c
         else
           (case digits (significand c) of
              [] \<Rightarrow> []
            | d # ds \<Rightarrow>
                (if ds = [] then [d] else d # 0x2E # ds) @ js ''e+'' @ digits (int n - 1)))"

definition NumberToString :: "integral \<Rightarrow> jsstring" where
  "NumberToString r =
     (case r of
        NotANumber \<Rightarrow> js ''NaN''
      | PlusInfinity \<Rightarrow> js ''Infinity''
      | MinusInfinity \<Rightarrow> js ''-Infinity''
      | Integer i \<Rightarrow> (if i < 0 then 0x2D # decimal (- i) else decimal i))"

definition formatTemp :: "app_state \<Rightarrow> double \<Rightarrow> jsstring" where
  "formatTemp s t =
     NumberToString (Math_round t) @ [0xB0] @ (if isCelsius s then js ''C'' else js ''F'')"

section \<open>The network and the clock\<close>

text \<open>
  What \<open>await axios.get\<close> gives: the promise is rejected (a network error, or a status
  outside 2xx), or it is fulfilled with a response whose \<open>data\<close> is a
  \<open>WeatherResponse\<close>.
\<close>

datatype axios_outcome = Rejected | Fulfilled WeatherResponse

text \<open>
  The world outside the component: \<open>respond w n q\<close> is the outcome of the request
  number \<open>n\<close> when it asks for the city \<open>q\<close>, \<open>clock w n\<close> is what \<open>new Date()\<close>
  reads once that request is answered, and \<open>requests w\<close> is the log of the cities
  requested so far.
\<close>

record world =
  respond :: "nat \<Rightarrow> jsstring \<Rightarrow> axios_outcome"
  clock :: "nat \<Rightarrow> Date"
  requests :: "jsstring list"

datatype exn = AxiosError | TypeError

definition axios_get :: "jsstring \<Rightarrow> world \<Rightarrow> (exn + WeatherResponse) \<times> world" where
  "axios_get q w =
     (case respond w (length (requests w)) q of
        Rejected \<Rightarrow> (Inl AxiosError, w\<lparr>requests := requests w @ [q]\<rparr>)
      | Fulfilled r \<Rightarrow> (Inr r, w\<lparr>requests := requests w @ [q]\<rparr>))"

section \<open>fetchWeatherData\<close>

text \<open>
  The \<open>try\<close> block: the request, then the object literal. Reading \<open>weather[0]\<close> of an
  empty array gives \<open>undefined\<close>, and its \<open>description\<close> throws a \<open>TypeError\<close>.
\<close>

definition fetch_try :: "jsstring \<Rightarrow> world \<Rightarrow> (exn + WeatherData) \<times> world" where
  "fetch_try q w =
     (case axios_get q w of
        (Inl e, w') \<Rightarrow> (Inl e, w')
      | (Inr r, w') \<Rightarrow>
          (case weather r of
             [] \<Rightarrow> (Inl TypeError, w')
           | c # _ \<Rightarrow>
               (Inr \<lparr>id' = WeatherResponse.id' r,
                     city = name r,
                     temperature = temp (main r),
                     feelsLike = feels_like (main r),
                     description = ResponseCondition.description c,
                     humidity = ResponseMain.humidity (main r),
                     windSpeed = speed (wind r),
                     icon = ResponseCondition.icon c,
                     lastUpdated = clock w (length (requests w))\<rparr>, w')))"

text \<open>
  The whole function: \<open>catch\<close> turns every exception of the block into \<open>null\<close>
  (\<open>None\<close>). The result is a sum, \<open>Inl\<close> for an exception that would leave the function.
\<close>

definition fetchWeatherData :: "jsstring \<Rightarrow> world \<Rightarrow> (exn + WeatherData option) \<times> world" where
  "fetchWeatherData q w =
     (case fetch_try q w of
        (Inl e, w') \<Rightarrow> (Inr None, w')
      | (Inr d, w') \<Rightarrow> (Inr (Some d), w'))"

section \<open>refreshWeather\<close>

text \<open>\<open>Array.prototype.find\<close>: the first element that satisfies the predicate.\<close>

definition refreshWeather :: "number \<Rightarrow> world \<Rightarrow> app_state \<Rightarrow> app_state \<times> world" where
  "refreshWeather cityId w s =
     (case find (\<lambda>data. id' data = cityId) (weatherData s) of
        None \<Rightarrow> (s, w)
      | Some cityToRefresh \<Rightarrow>
          (let s1 = s\<lparr>retrying := True\<rparr> in
           case fetchWeatherData (city cityToRefresh) w of
             (Inl e, w') \<Rightarrow> (s1, w')
           | (Inr updatedData, w') \<Rightarrow>
               (let s2 = s1\<lparr>retrying := False\<rparr> in
                case updatedData of
                  None \<Rightarrow> (s2, w')
                | Some u \<Rightarrow>
                    (s2\<lparr>weatherData :=
                          map (\<lambda>data. if id' data = cityId then u else data)
                            (weatherData s2)\<rparr>, w'))))"

section \<open>loadInitialData\<close>

text \<open>
  \<open>cities.map(city => fetchWeatherData(city))\<close> starts the requests in the order of the
  list; \<open>Promise.all\<close> keeps the results in that order and is rejected when one of the
  promises is.
\<close>

fun fetch_each :: "jsstring list \<Rightarrow> world \<Rightarrow> (exn + WeatherData option) list \<times> world" where
  "fetch_each [] w = ([], w)"
| "fetch_each (q # qs) w =
     (case fetchWeatherData q w of
        (p, w') \<Rightarrow> (case fetch_each qs w' of (ps, w'') \<Rightarrow> (p # ps, w'')))"

fun Promise_all :: "(exn + 'a) list \<Rightarrow> exn + 'a list" where
  "Promise_all [] = Inr []"
| "Promise_all (Inl e # ps) = Inl e"
| "Promise_all (Inr v # ps) =
     (case Promise_all ps of Inl e \<Rightarrow> Inl e | Inr vs \<Rightarrow> Inr (v # vs))"

text \<open>
  The effect runs \<open>loadInitialData\<close> on the constant \<open>DEFAULT_CITIES\<close>; the list is a
  parameter here.
\<close>

definition loadInitialData :: "jsstring list \<Rightarrow> world \<Rightarrow> app_state \<Rightarrow> app_state \<times> world" where
  "loadInitialData cities w s =
     (case fetch_each cities w of
        (weatherPromises, w') \<Rightarrow>
          (case Promise_all weatherPromises of
             Inl e \<Rightarrow> (s, w')
           | Inr results \<Rightarrow>
               (s\<lparr>weatherData := map the (filter (\<lambda>data. data \<noteq> None) results),
                  loading := False\<rparr>, w')))"

section \<open>handleSearch\<close>

text \<open>
  \<open>String.prototype.trim\<close> removes the white space and the line terminators of
  ECMAScript from both ends.
\<close>

definition isWhiteSpace :: "16 word \<Rightarrow> bool" where
  "isWhiteSpace c \<longleftrightarrow>
     c \<in> {0x9, 0xA, 0xB, 0xC, 0xD, 0x20, 0xA0, 0x1680, 0x2028, 0x2029, 0x202F, 0x205F,
          0x3000, 0xFEFF} \<or> (0x2000 \<le> c \<and> c \<le> 0x200A)"

definition trim :: "jsstring \<Rightarrow> jsstring" where
  "trim q = rev (dropWhile isWhiteSpace (rev (dropWhile isWhiteSpace q)))"

definition handleSearch :: "world \<Rightarrow> app_state \<Rightarrow> app_state \<times> world" where
  "handleSearch w s =
     (if trim (searchCity s) = [] then (s, w)
      else
        (let s1 = s\<lparr>loading := True, error := []\<rparr> in
         case fetchWeatherData (searchCity s) w of
           (Inl e, w') \<Rightarrow>
             (s1\<lparr>error := js ''Failed to fetch weather data. Please try again.'',
                 loading := False\<rparr>, w')
         | (Inr None, w') \<Rightarrow>
             (s1\<lparr>error := js ''City not found. Please try again.'', loading := False\<rparr>, w')
         | (Inr (Some newWeatherData), w') \<Rightarrow>
             (s1\<lparr>weatherData :=
                   newWeatherData #
                   filter (\<lambda>item. city item \<noteq> city newWeatherData) (weatherData s1),
                 searchCity := [],
                 loading := False\<rparr>, w')))"

section \<open>The outcome of a fetch\<close>

text \<open>
  What a caller gets from \<open>fetchWeatherData\<close>: the record, or \<open>None\<close> for \<open>null\<close>.
\<close>

definition fetched :: "jsstring \<Rightarrow> world \<Rightarrow> WeatherData option" where
  "fetched q w = (case fst (fetchWeatherData q w) of Inl e \<Rightarrow> None | Inr r \<Rightarrow> r)"

section \<open>Example data\<close>

definition response_of :: "number \<Rightarrow> jsstring \<Rightarrow> WeatherResponse" where
  "response_of i n =
     \<lparr>main = \<lparr>temp = 15, feels_like = 14, ResponseMain.humidity = 80\<rparr>,
      weather = [\<lparr>ResponseCondition.description = js ''clear sky'',
                  ResponseCondition.icon = js ''01d''\<rparr>],
      wind = \<lparr>speed = 3\<rparr>,
      name = n,
      WeatherResponse.id' = i\<rparr>"

definition record_of :: "number \<Rightarrow> jsstring \<Rightarrow> Date \<Rightarrow> WeatherData" where
  "record_of i n t =
     \<lparr>id' = i, city = n, temperature = 15, feelsLike = 14, description = js ''clear sky'',
      humidity = 80, windSpeed = 3, icon = js ''01d'', lastUpdated = t\<rparr>"

definition world_of :: "(nat \<Rightarrow> jsstring \<Rightarrow> axios_outcome) \<Rightarrow> world" where
  "world_of f = \<lparr>respond = f, clock = (\<lambda>n. 1000 + n), requests = []\<rparr>"

definition offline :: world where
  "offline = world_of (\<lambda>n q. Rejected)"

definition dashboard :: "WeatherData list \<Rightarrow> jsstring \<Rightarrow> app_state" where
  "dashboard xs q =
     \<lparr>weatherData = xs, loading = False, searchCity = q, error = [], isCelsius = True,
      retrying = False\<rparr>"

definition no_conditions :: world where
  "no_conditions = world_of (\<lambda>n q. Fulfilled ((response_of 1 q)\<lparr>weather := []\<rparr>))"

definition atlas :: world where
  "atlas = world_of (\<lambda>n q.
     if q = js ''London'' then Fulfilled (response_of 2643743 q)
     else if q = js ''Tokyo'' then Fulfilled (response_of 1850147 q)
     else Rejected)"

definition steady :: "number \<Rightarrow> jsstring \<Rightarrow> world" where
  "steady i n = world_of (\<lambda>k q. Fulfilled (response_of i n))"

definition renaming :: world where
  "renaming = world_of (\<lambda>k q.
     if k < 5 then Rejected
     else if k = 5 then Fulfilled (response_of 1275339 (js ''Bombay''))
     else Fulfilled (response_of 1275339 (js ''Mumbai'')))"

definition trace_loaded :: "app_state \<times> world" where
  "trace_loaded = loadInitialData DEFAULT_CITIES renaming initial_state"

definition trace_first :: "app_state \<times> world" where
  "trace_first =
     handleSearch (snd trace_loaded) ((fst trace_loaded)\<lparr>searchCity := js ''Bombay''\<rparr>)"

definition trace_second :: "app_state \<times> world" where
  "trace_second =
     handleSearch (snd trace_first) ((fst trace_first)\<lparr>searchCity := js ''Mumbai''\<rparr>)"

section \<open>Facts about the fetch\<close>

lemma fetch_try_world: "snd (fetch_try q w) = w\<lparr>requests := requests w @ [q]\<rparr>"
  by (simp add: fetch_try_def axios_get_def split: axios_outcome.split list.split)

lemma fetchWeatherData_world:
  "snd (fetchWeatherData q w) = w\<lparr>requests := requests w @ [q]\<rparr>"
proof (cases "fetch_try q w")
  case (Pair r w')
  with fetch_try_world [of q w] show ?thesis
    by (cases r) (simp_all add: fetchWeatherData_def)
qed

lemma fetchWeatherData_returns: "\<exists>r. fst (fetchWeatherData q w) = Inr r"
  by (simp add: fetchWeatherData_def split: prod.split sum.split)

lemma fetchWeatherData_None_iff:
  "fst (fetchWeatherData q w) = Inr None \<longleftrightarrow>
   (case respond w (length (requests w)) q of
      Rejected \<Rightarrow> True
    | Fulfilled r \<Rightarrow> weather r = [])"
  by (simp add: fetchWeatherData_def fetch_try_def axios_get_def
      split: axios_outcome.split list.split)

lemma fetchWeatherData_offline: "fst (fetchWeatherData q offline) = Inr None"
  by (simp add: fetchWeatherData_None_iff offline_def world_of_def)

lemma fetchWeatherData_fetched:
  "fetchWeatherData q w = (Inr (fetched q w), w\<lparr>requests := requests w @ [q]\<rparr>)"
proof -
  obtain r where "fst (fetchWeatherData q w) = Inr r"
    using fetchWeatherData_returns by blast
  then show ?thesis
    using fetchWeatherData_world [of q w] by (simp add: fetched_def prod_eq_iff)
qed

lemma record_of_sel [simp]: "id' (record_of i n t) = i" "city (record_of i n t) = n"
  by (simp_all add: record_of_def)

lemma fetchWeatherData_steady: "fst (fetchWeatherData q (steady i n)) = Inr (Some (record_of i n 1000))"
  by (simp add: fetchWeatherData_def fetch_try_def axios_get_def steady_def
      world_of_def response_of_def record_of_def)

lemma fetched_atlas_London:
  "fetched (js ''London'') (atlas\<lparr>requests := rs\<rparr>) =
     Some (record_of 2643743 (js ''London'') (1000 + length rs))"
  by (simp add: fetched_def fetchWeatherData_def fetch_try_def axios_get_def atlas_def
      world_of_def response_of_def record_of_def)

lemma fetched_atlas_first:
  "fetched (js ''London'') atlas = Some (record_of 2643743 (js ''London'') 1000)"
  by (simp add: fetched_def fetchWeatherData_def fetch_try_def axios_get_def atlas_def
      world_of_def response_of_def record_of_def)

lemma fetched_atlas_Tokyo:
  "fetched (js ''Tokyo'') (atlas\<lparr>requests := rs\<rparr>) =
     Some (record_of 1850147 (js ''Tokyo'') (1000 + length rs))"
  by (simp add: fetched_def fetchWeatherData_def fetch_try_def axios_get_def atlas_def
      world_of_def response_of_def record_of_def js_def)

lemma fetched_atlas_Unknownville:
  "fetched (js ''Unknownville'') (atlas\<lparr>requests := rs\<rparr>) = None"
  by (simp add: fetched_def fetchWeatherData_def fetch_try_def axios_get_def atlas_def
      world_of_def js_def)

lemma requests_atlas: "requests atlas = []"
  by (simp add: atlas_def world_of_def)

lemma fetchWeatherData_atlas_London:
  "fst (fetchWeatherData (js ''London'') atlas) =
     Inr (Some (record_of 2643743 (js ''London'') 1000))"
  by (simp add: fetchWeatherData_def fetch_try_def axios_get_def atlas_def
      world_of_def response_of_def record_of_def)

section \<open>Facts about the search\<close>

lemma trim_empty_iff: "trim q = [] \<longleftrightarrow> (\<forall>c\<in>set q. isWhiteSpace c)"
proof
  assume "trim q = []"
  then have all: "\<forall>c\<in>set (dropWhile isWhiteSpace q). isWhiteSpace c"
    by (simp add: trim_def)
  have "dropWhile isWhiteSpace q = []"
  proof (rule ccontr)
    assume ne: "dropWhile isWhiteSpace q \<noteq> []"
    then have "\<not> isWhiteSpace (hd (dropWhile isWhiteSpace q))"
      by (rule hd_dropWhile)
    with all ne show False
      by (meson hd_in_set)
  qed
  then show "\<forall>c\<in>set q. isWhiteSpace c"
    by simp
next
  assume "\<forall>c\<in>set q. isWhiteSpace c"
  then have "dropWhile isWhiteSpace q = []"
    by simp
  then show "trim q = []"
    by (simp add: trim_def del: dropWhile_eq_Nil_conv)
qed

lemma handleSearch_blank: "trim (searchCity s) = [] \<Longrightarrow> handleSearch w s = (s, w)"
  by (simp add: handleSearch_def)

lemma handleSearch_failed:
  assumes "trim (searchCity s) \<noteq> []"
    and "fst (fetchWeatherData (searchCity s) w) = Inr None"
  shows "fst (handleSearch w s) =
    s\<lparr>loading := False, error := js ''City not found. Please try again.''\<rparr>"
  using assms by (cases "fetchWeatherData (searchCity s) w") (simp add: handleSearch_def)

lemma handleSearch_success:
  assumes "trim (searchCity s) \<noteq> []"
    and "fst (fetchWeatherData (searchCity s) w) = Inr (Some d)"
  shows "fst (handleSearch w s) =
    s\<lparr>loading := False, error := [], searchCity := [],
      weatherData := d # filter (\<lambda>item. city item \<noteq> city d) (weatherData s)\<rparr>"
  using assms by (cases "fetchWeatherData (searchCity s) w") (simp add: handleSearch_def)

lemma not_found_message:
  "js ''City not found. Please try again.'' \<noteq> []"
  "js ''City not found. Please try again.'' \<noteq>
   js ''Failed to fetch weather data. Please try again.''"
  by (simp_all add: js_def)

lemma Atlantis_not_blank: "\<exists>c\<in>set (js ''Atlantis''). \<not> isWhiteSpace c"
  by (simp add: js_def isWhiteSpace_def)

lemma London_not_blank: "\<exists>c\<in>set (js ''London''). \<not> isWhiteSpace c"
  by (simp add: js_def isWhiteSpace_def)

lemma length_filter_split:
  "length xs = length (filter P xs) + length (filter (\<lambda>x. \<not> P x) xs)"
  by (induction xs) auto

lemma search_distinct:
  assumes "distinct (map id' xs)" and "\<forall>x\<in>set xs. id' x = id' r \<longrightarrow> city x = city r"
  shows "distinct (map id' (r # filter (\<lambda>item. city item \<noteq> city r) xs))"
proof -
  from assms(1) have "distinct (map id' (filter (\<lambda>item. city item \<noteq> city r) xs))"
    by (rule distinct_map_filter)
  moreover from assms(2) have "id' r \<notin> id' ` set (filter (\<lambda>item. city item \<noteq> city r) xs)"
    by auto
  ultimately show ?thesis by simp
qed

section \<open>Facts about the refresh\<close>

lemma find_absent: "cityId \<notin> id' ` set xs \<Longrightarrow> find (\<lambda>data. id' data = cityId) xs = None"
  by (induction xs) auto

lemma find_present:
  "cityId \<in> id' ` set xs \<Longrightarrow>
   \<exists>c. find (\<lambda>data. id' data = cityId) xs = Some c \<and> c \<in> set xs \<and> id' c = cityId"
  by (induction xs) auto

lemma refreshWeather_failed:
  assumes "find (\<lambda>data. id' data = cityId) (weatherData s) = Some c"
    and "fst (fetchWeatherData (city c) w) = Inr None"
  shows "fst (refreshWeather cityId w s) = s\<lparr>retrying := False\<rparr>"
  using assms by (cases "fetchWeatherData (city c) w") (simp add: refreshWeather_def)

lemma refreshWeather_success:
  assumes "find (\<lambda>data. id' data = cityId) (weatherData s) = Some c"
    and "fst (fetchWeatherData (city c) w) = Inr (Some u)"
  shows "fst (refreshWeather cityId w s) =
    s\<lparr>retrying := False,
      weatherData := map (\<lambda>data. if id' data = cityId then u else data) (weatherData s)\<rparr>"
  using assms by (cases "fetchWeatherData (city c) w") (simp add: refreshWeather_def)

lemma refresh_map_ids:
  "id' u = cityId \<Longrightarrow> map id' (map (\<lambda>data. if id' data = cityId then u else data) xs) = map id' xs"
  by (induction xs) auto

lemma refresh_map_distinct:
  assumes "distinct (map id' xs)" and "id' u = cityId \<or> id' u \<notin> id' ` set xs"
  shows "distinct (map id' (map (\<lambda>data. if id' data = cityId then u else data) xs))"
  using assms
proof (induction xs)
  case Nil
  show ?case by simp
next
  case (Cons x xs)
  then show ?case
    by (auto simp: image_iff)
qed

lemma distinct_once:
  "distinct (map f xs) \<Longrightarrow> c \<in> f ` set xs \<Longrightarrow> length (filter (\<lambda>d. f d = c) xs) = 1"
proof (induction xs)
  case Nil
  then show ?case by simp
next
  case (Cons x xs)
  show ?case
  proof (cases "f x = c")
    case True
    with Cons.prems have "filter (\<lambda>d. f d = c) xs = []"
      by (auto simp: filter_empty_conv image_iff)
    with True show ?thesis by simp
  next
    case False
    with Cons show ?thesis by auto
  qed
qed

section \<open>Facts about the initial load\<close>

lemma upt_0_Suc: "[0..<Suc n] = 0 # map Suc [0..<n]"
  by (simp add: upt_conv_Cons map_Suc_upt del: upt_Suc)

lemma fetch_each_eq:
  "fetch_each qs w =
     (map (\<lambda>i. Inr (fetched (qs ! i) (w\<lparr>requests := requests w @ take i qs\<rparr>))) [0..<length qs],
      w\<lparr>requests := requests w @ qs\<rparr>)"
proof (induction qs arbitrary: w)
  case Nil
  show ?case by simp
next
  case (Cons q qs)
  show ?case
    by (simp add: fetchWeatherData_fetched Cons.IH upt_0_Suc comp_def del: upt_Suc)
qed

lemma Promise_all_Inr: "Promise_all (map (\<lambda>i. Inr (f i)) xs) = Inr (map f xs)"
  by (induction xs) simp_all

lemma successes_concat:
  "map the (filter (\<lambda>d. d \<noteq> None) (map f xs)) =
   concat (map (\<lambda>i. case f i of None \<Rightarrow> [] | Some r \<Rightarrow> [r]) xs)"
  by (induction xs) (auto split: option.split)

lemma successes_length:
  "length (map the (filter (\<lambda>d. d \<noteq> None) (map f xs))) =
   length xs - length (filter (\<lambda>i. f i = None) xs)"
proof (induction xs)
  case Nil
  show ?case by simp
next
  case (Cons x xs)
  have "length (filter (\<lambda>i. f i = None) xs) \<le> length xs"
    by (rule length_filter_le)
  with Cons show ?case
    by (cases "f x") (auto simp: Suc_diff_le)
qed

lemma loadInitialData_eq:
  "loadInitialData cities w s =
     (s\<lparr>weatherData := map the (filter (\<lambda>d. d \<noteq> None)
          (map (\<lambda>i. fetched (cities ! i) (w\<lparr>requests := requests w @ take i cities\<rparr>))
             [0..<length cities])),
        loading := False\<rparr>,
      w\<lparr>requests := requests w @ cities\<rparr>)"
  by (simp add: loadInitialData_def fetch_each_eq Promise_all_Inr)

lemma set_successes:
  "set (concat (map (\<lambda>i. case g i of None \<Rightarrow> [] | Some r \<Rightarrow> [r]) ks)) =
   {b. \<exists>j\<in>set ks. g j = Some b}"
  by (induction ks) (auto split: option.splits)

lemma distinct_successes:
  assumes "distinct ks"
    and "\<forall>i\<in>set ks. \<forall>j\<in>set ks. i \<noteq> j \<longrightarrow> (\<forall>a b. g i = Some a \<and> g j = Some b \<longrightarrow> h a \<noteq> h b)"
  shows "distinct (map h (concat (map (\<lambda>i. case g i of None \<Rightarrow> [] | Some r \<Rightarrow> [r]) ks)))"
  using assms
proof (induction ks)
  case Nil
  show ?case by simp
next
  case (Cons i ks)
  from Cons have IH: "distinct (map h (concat (map (\<lambda>i. case g i of None \<Rightarrow> [] | Some r \<Rightarrow> [r]) ks)))"
    by simp
  show ?case
  proof (cases "g i")
    case None
    with IH show ?thesis by simp
  next
    case (Some a)
    have "h a \<noteq> h b" if "b \<in> set (concat (map (\<lambda>i. case g i of None \<Rightarrow> [] | Some r \<Rightarrow> [r]) ks))" for b
    proof -
      from that obtain j where j: "j \<in> set ks" "g j = Some b"
        unfolding set_successes by blast
      with Cons.prems(1) have "i \<noteq> j" by auto
      with Cons.prems(2) j Some show ?thesis by simp
    qed
    with IH Some show ?thesis by auto
  qed
qed

section \<open>Facts about doubles and the display\<close>

lemma pow2_powi: "pow2 e = 2 powi e"
  by (simp add: pow2_def power_int_def inverse_eq_divide power_one_over)

lemma pow2_pos: "0 < pow2 e"
  by (simp add: pow2_def)

lemma pow2_add: "pow2 (a + b) = pow2 a * pow2 b"
  by (simp add: pow2_powi power_int_add)

lemma pow2_less: "a < b \<Longrightarrow> pow2 a < pow2 b"
  by (simp add: pow2_powi power_int_strict_increasing)

lemma pow2_le: "a \<le> b \<Longrightarrow> pow2 a \<le> pow2 b"
  by (simp add: pow2_powi power_int_increasing)

lemma pow2_Suc: "pow2 (e + 1) = 2 * pow2 e"
proof -
  have "pow2 1 = 2" by (simp add: pow2_def)
  with pow2_add [of e 1] show ?thesis by simp
qed

lemma pow2_nat: "pow2 (int n) = 2 ^ n"
  by (simp add: pow2_def)

lemma bit_length_bounds:
  "0 < n \<Longrightarrow> 2 ^ (bit_length n - 1) \<le> n \<and> n < 2 ^ bit_length n"
proof (induction n rule: bit_length.induct)
  case (1 n)
  show ?case
  proof (cases "n = 1")
    case True
    then show ?thesis
      by (simp add: bit_length.simps [of 1] bit_length.simps [of 0])
  next
    case False
    with "1.prems" have half: "0 < n div 2" by simp
    with "1.IH" "1.prems" have IH: "2 ^ (bit_length (n div 2) - 1) \<le> n div 2" "n div 2 < 2 ^ bit_length (n div 2)"
      by simp_all
    from half have pos: "0 < bit_length (n div 2)"
      by (simp add: bit_length.simps [of "n div 2"])
    have bl: "bit_length n = Suc (bit_length (n div 2))"
      using "1.prems" by (simp add: bit_length.simps [of n])
    from pos obtain k where k: "bit_length (n div 2) = Suc k"
      by (cases "bit_length (n div 2)") simp_all
    from IH k have "2 * 2 ^ k \<le> n" "n < 2 * 2 ^ Suc k"
      by simp_all
    then show ?thesis
      by (simp add: bl k)
  qed
qed

lemma ilog2_bounds:
  assumes "0 < x"
  shows "pow2 (ilog2 x) \<le> x \<and> x < pow2 (ilog2 x + 1)"
proof -
  obtain p q where pq: "quotient_of x = (p, q)"
    by (cases "quotient_of x")
  then have q: "0 < q" and x: "x = of_int p / of_int q"
    by (simp_all add: quotient_of_denom_pos quotient_of_div)
  with assms have p: "0 < p"
    by (simp add: zero_less_divide_iff)
  let ?a = "bit_length p" and ?b = "bit_length q"
  from bit_length_bounds [OF p] have pb: "(2::rat) ^ (?a - 1) \<le> of_int p" "of_int p < (2::rat) ^ ?a"
    by (metis of_int_le_iff of_int_numeral of_int_power, metis of_int_less_iff of_int_numeral of_int_power)
  from bit_length_bounds [OF q] have qb: "(2::rat) ^ (?b - 1) \<le> of_int q" "of_int q < (2::rat) ^ ?b"
    by (metis of_int_le_iff of_int_numeral of_int_power, metis of_int_less_iff of_int_numeral of_int_power)
  from p q have apos: "0 < ?a" and bpos: "0 < ?b"
    by (simp_all add: bit_length.simps [of p] bit_length.simps [of q])
  let ?e = "int ?a - int ?b"
  have qpos: "(0::rat) < of_int q" using q by simp
  have upper: "x < pow2 (?e + 1)"
  proof -
    have "pow2 (?e + 1) * pow2 (int ?b - 1) = pow2 (int ?a)"
      by (simp add: pow2_add [symmetric])
    moreover have "pow2 (int ?b - 1) = 2 ^ (?b - 1)"
      using bpos pow2_nat [of "?b - 1"] by (simp add: of_nat_diff)
    ultimately have "pow2 (?e + 1) * 2 ^ (?b - 1) = 2 ^ ?a"
      by (simp add: pow2_nat)
    with pb(2) have "of_int p < pow2 (?e + 1) * 2 ^ (?b - 1)"
      by simp
    also have "\<dots> \<le> pow2 (?e + 1) * of_int q"
      using qb(1) pow2_pos [of "?e + 1"] by simp
    finally show ?thesis
      using qpos by (simp add: x pos_divide_less_eq)
  qed
  have lower: "pow2 (?e - 1) < x"
  proof -
    have "pow2 (?e - 1) * pow2 (int ?b) = pow2 (int ?a - 1)"
      by (simp add: pow2_add [symmetric])
    moreover have "pow2 (int ?a - 1) = 2 ^ (?a - 1)"
      using apos pow2_nat [of "?a - 1"] by (simp add: of_nat_diff)
    ultimately have eq: "pow2 (?e - 1) * 2 ^ ?b = 2 ^ (?a - 1)"
      by (simp add: pow2_nat)
    have "pow2 (?e - 1) * of_int q < pow2 (?e - 1) * 2 ^ ?b"
      using qb(2) pow2_pos [of "?e - 1"] by simp
    also have "\<dots> \<le> of_int p"
      using pb(1) eq by simp
    finally show ?thesis
      using qpos by (simp add: x pos_less_divide_eq)
  qed
  show ?thesis
  proof (cases "pow2 ?e \<le> x")
    case True
    then have "ilog2 x = ?e"
      by (simp add: ilog2_def pq)
    with True upper show ?thesis by simp
  next
    case False
    then have "ilog2 x = ?e - 1"
      by (simp add: ilog2_def pq)
    with False lower show ?thesis by simp
  qed
qed

lemma ilog2_eqI:
  assumes "pow2 e \<le> x" and "x < pow2 (e + 1)"
  shows "ilog2 x = e"
proof -
  from assms(1) pow2_pos [of e] have "0 < x" by linarith
  from ilog2_bounds [OF this] have b: "pow2 (ilog2 x) \<le> x" "x < pow2 (ilog2 x + 1)"
    by simp_all
  have "\<not> ilog2 x < e"
  proof
    assume "ilog2 x < e"
    then have "pow2 (ilog2 x + 1) \<le> pow2 e" by (intro pow2_le) simp
    with b(2) assms(1) show False by linarith
  qed
  moreover have "\<not> e < ilog2 x"
  proof
    assume "e < ilog2 x"
    then have "pow2 (e + 1) \<le> pow2 (ilog2 x)" by (intro pow2_le) simp
    with b(1) assms(2) show False by linarith
  qed
  ultimately show ?thesis by simp
qed

lemma round_half_even_near:
  assumes "\<bar>y - of_int m\<bar> < 1 / 2"
  shows "round_half_even y = m"
proof (cases "of_int m \<le> y")
  case True
  with assms have "\<lfloor>y\<rfloor> = m"
    by (intro floor_unique) linarith+
  moreover from True assms have "y - of_int m < 1 / 2" by linarith
  ultimately show ?thesis
    by (simp add: round_half_even_def Let_def)
next
  case False
  with assms have "of_int m - 1 \<le> y" and "y < of_int m"
    by linarith+
  then have f: "\<lfloor>y\<rfloor> = m - 1"
    by (intro floor_unique) simp_all
  from False assms have "1 / 2 < y - of_int (m - 1)" by simp
  with f show ?thesis
    by (simp add: round_half_even_def Let_def)
qed

lemma fl_pos:
  assumes "pow2 e \<le> x" and "x < pow2 (e + 1)" and "- 1022 \<le> e" and "e \<le> 1022"
    and "\<bar>x / pow2 (e - 52) - of_int m\<bar> < 1 / 2" and "m \<le> 2 ^ 53"
  shows "fl x = Finite (of_int m * pow2 (e - 52))"
proof -
  from assms(1) pow2_pos [of e] have x: "0 < x" by linarith
  have e: "ilog2 x = e"
    using assms(1,2) by (rule ilog2_eqI)
  have m: "round_half_even (x / pow2 (e - 52)) = m"
    using assms(5) by (rule round_half_even_near)
  have "of_int m * pow2 (e - 52) \<le> 2 ^ 53 * pow2 (e - 52)"
    using assms(6) pow2_pos [of "e - 52"]
    by (metis mult_le_cancel_right_pos of_int_le_iff of_int_numeral of_int_power)
  also have "\<dots> = pow2 53 * pow2 (e - 52)"
    by (simp add: pow2_def)
  also have "\<dots> = pow2 (e + 1)"
    using pow2_add [of 53 "e - 52"] by (simp add: add.commute)
  also have "\<dots> < pow2 1024"
    using assms(4) by (intro pow2_less) simp
  finally have "\<not> pow2 1024 \<le> of_int m * pow2 (e - 52)" by simp
  moreover have "max (ilog2 x) (- 1022) = e"
    using e assms(3) by simp
  ultimately show ?thesis
    using x m by (simp add: fl_def Let_def)
qed

lemma fl_int_exact:
  assumes "0 \<le> c" and "c < 2 ^ 53"
  shows "fl (of_int c) = Finite (of_int c)"
proof (cases "c = 0")
  case True
  then show ?thesis by (simp add: fl_def)
next
  case False
  with assms have pos: "(0::rat) < of_int c" and one: "(1::rat) \<le> of_int c"
    by simp_all
  let ?x = "of_int c :: rat"
  let ?e = "ilog2 ?x"
  from ilog2_bounds [OF pos] have b: "pow2 ?e \<le> ?x" "?x < pow2 (?e + 1)"
    by simp_all
  have lo: "0 \<le> ?e"
  proof (rule ccontr)
    assume "\<not> 0 \<le> ?e"
    then have "pow2 (?e + 1) \<le> pow2 0" by (intro pow2_le) simp
    with b(2) one show False by (simp add: pow2_def)
  qed
  have "?x < pow2 53"
    using assms(2) by (simp add: pow2_def)
  with b(1) have "pow2 ?e < pow2 53" by linarith
  then have hi: "?e \<le> 52"
    using pow2_le [of 53 ?e] by (cases "?e \<le> 52") simp_all
  let ?k = "nat (52 - ?e)"
  let ?m = "c * 2 ^ ?k"
  have ulp: "pow2 (?e - 52) = 1 / 2 ^ ?k"
    using hi by (simp add: pow2_def)
  have quot: "?x / pow2 (?e - 52) = of_int ?m"
    by (simp add: ulp)
  have undo: "of_int ?m * pow2 (?e - 52) = ?x"
    by (simp add: ulp)
  have "of_int ?m = ?x * pow2 (52 - ?e)"
    using hi by (simp add: pow2_def)
  also have "\<dots> < pow2 (?e + 1) * pow2 (52 - ?e)"
    using b(2) pow2_pos [of "52 - ?e"] by simp
  also have "\<dots> = pow2 53"
    by (simp add: pow2_add [symmetric])
  also have "\<dots> = of_int (2 ^ 53)"
    by (simp add: pow2_def)
  finally have m: "?m \<le> 2 ^ 53"
    by (simp only: of_int_less_iff less_imp_le)
  have "fl ?x = Finite (of_int ?m * pow2 (?e - 52))"
    using b lo hi m by (intro fl_pos) (simp_all add: quot)
  then show ?thesis
    by (simp only: undo)
qed

lemma digits_nonempty: "digits v \<noteq> []"
  by (simp add: digits.simps [of v])

lemma digits_length_lower: "1 \<le> v \<Longrightarrow> 10 ^ (length (digits v) - 1) \<le> v"
proof (induction v rule: digits.induct)
  case (1 n)
  show ?case
  proof (cases "n < 10")
    case True
    with "1.prems" show ?thesis
      by (simp add: digits.simps [of n])
  next
    case False
    then have "1 \<le> n div 10" by simp
    with "1.IH" False have IH: "10 ^ (length (digits (n div 10)) - 1) \<le> n div 10"
      by simp
    obtain k where k: "length (digits (n div 10)) = Suc k"
      using digits_nonempty [of "n div 10"] by (cases "digits (n div 10)") simp_all
    from IH k have "10 * 10 ^ k \<le> 10 * (n div 10)" by simp
    also have "\<dots> \<le> n" by simp
    finally show ?thesis
      using False by (simp add: digits.simps [of n] k)
  qed
qed

lemma digits_length_upper: "v < 10 ^ n \<Longrightarrow> 0 < n \<Longrightarrow> length (digits v) \<le> n"
proof (induction v arbitrary: n rule: digits.induct)
  case (1 v)
  show ?case
  proof (cases "v < 10")
    case True
    with "1.prems" show ?thesis
      by (simp add: digits.simps [of v])
  next
    case False
    from "1.prems" obtain k where n: "n = Suc k"
      by (cases n) simp_all
    with False "1.prems" have "0 < k"
      by (cases k) simp_all
    moreover from "1.prems" n have "v div 10 < 10 ^ k"
      by simp
    ultimately have "length (digits (v div 10)) \<le> k"
      using "1.IH" False by simp
    with False n show ?thesis
      by (simp add: digits.simps [of v])
  qed
qed

lemma candidates_bound:
  assumes "0 \<le> v" and "c \<in> set (candidates v)"
  shows "0 \<le> c \<and> c \<le> 2 * v + 1"
proof -
  let ?d = "length (digits v)"
  from assms(2) obtain k where k: "1 \<le> k" "k \<le> ?d"
    and c: "c = (v div 10 ^ (?d - k)) * 10 ^ (?d - k) \<or>
            c = (v div 10 ^ (?d - k)) * 10 ^ (?d - k) + 10 ^ (?d - k)"
    by (auto simp: candidates_def Let_def split: if_splits)
  let ?p = "(10::int) ^ (?d - k)"
  have p: "0 < ?p" by simp
  have "(v div ?p) * ?p = v - v mod ?p"
    by (simp add: minus_mod_eq_div_mult)
  moreover have "0 \<le> v mod ?p" and "v mod ?p \<le> v"
    using assms(1) p by (simp_all add: zmod_le_nonneg_dividend)
  ultimately have lo: "0 \<le> (v div ?p) * ?p" "(v div ?p) * ?p \<le> v"
    by simp_all
  have "?p \<le> v + 1"
  proof (cases "1 \<le> v")
    case True
    have "?p \<le> 10 ^ (?d - 1)"
      using k by (intro power_increasing) simp_all
    also have "\<dots> \<le> v"
      using True by (rule digits_length_lower)
    finally show ?thesis by simp
  next
    case False
    with assms(1) have "v = 0" by simp
    then show ?thesis
      using k by (simp add: digits.simps [of 0])
  qed
  with lo c p show ?thesis
    by auto
qed

lemma shortest_small:
  assumes "0 \<le> v" and "v < 10 ^ 15"
  shows "shortest v = v"
proof (cases "find (\<lambda>c. fl (of_int c) = Finite (of_int v)) (candidates v)")
  case None
  then show ?thesis by (simp add: shortest_def)
next
  case (Some c)
  then have P: "fl (of_int c) = Finite (of_int v)" and mem: "c \<in> set (candidates v)"
    by (auto simp: find_Some_iff)
  from candidates_bound [OF assms(1) mem] assms(2) have "0 \<le> c" "c < 2 ^ 53"
    by simp_all
  then have "fl (of_int c) = Finite (of_int c)"
    by (rule fl_int_exact)
  with P have "c = v" by simp
  with Some show ?thesis by (simp add: shortest_def)
qed

lemma decimal_small:
  assumes "0 \<le> v" and "v < 10 ^ 15"
  shows "decimal v = digits v"
proof -
  have "length (digits v) \<le> 15"
    using assms(2) by (intro digits_length_upper) simp_all
  then show ?thesis
    by (simp add: decimal_def Let_def shortest_small [OF assms])
qed

lemma digits_examples:
  "digits 0 = js ''0''" "digits 32 = js ''32''" "digits 212 = js ''212''" "digits 37 = js ''37''"
  by (simp_all add: js_def digits.simps [of 0] digits.simps [of 32] digits.simps [of 3]
      digits.simps [of 212] digits.simps [of 21] digits.simps [of 2] digits.simps [of 37])

lemma NumberToString_small:
  assumes "\<bar>n\<bar> < 10 ^ 15"
  shows "NumberToString (Integer n) = (if n < 0 then 0x2D # digits (- n) else digits n)"
  using assms by (simp add: NumberToString_def decimal_small)

lemma Math_round_Finite: "Math_round (Finite v) = Integer \<lfloor>v + 1 / 2\<rfloor>"
  by (simp add: Math_round_def)

lemma Math_round_int: "Math_round (Finite (of_int i)) = Integer i"
proof -
  have "\<lfloor>of_int i + 1 / 2 :: rat\<rfloor> = i"
    by (rule floor_unique) simp_all
  then show ?thesis
    by (simp add: Math_round_def)
qed

lemma Math_round_examples:
  "Math_round (Finite 0) = Integer 0" "Math_round (Finite 32) = Integer 32"
  "Math_round (Finite 212) = Integer 212"
  using Math_round_int [of 0] Math_round_int [of 32] Math_round_int [of 212] by simp_all

lemma Math_round_half: "Math_round (Finite (73 / 2)) = Integer 37"
proof -
  have "\<lfloor>73 / 2 + 1 / 2 :: rat\<rfloor> = 37"
    by simp
  then show ?thesis
    by (simp only: Math_round_Finite)
qed

lemma convertTemp_fahrenheit:
  "\<not> isCelsius s \<Longrightarrow>
   convertTemp s celsius = Number_add (Number_divide (Number_multiply celsius 9) 5) 32"
  by (simp add: convertTemp_def)

lemma formatTemp_fahrenheit:
  "\<not> isCelsius s \<Longrightarrow> formatTemp s t = NumberToString (Math_round t) @ [0xB0] @ js ''F''"
  by (simp add: formatTemp_def)

lemma fahrenheit_0:
  "Number_add (Number_divide (Number_multiply (Finite 0) 9) 5) 32 = Finite 32"
  using fl_int_exact [of 32] by (simp add: Number_add_def Number_divide_def Number_multiply_def fl_def)

lemma fahrenheit_100:
  "Number_add (Number_divide (Number_multiply (Finite 100) 9) 5) 32 = Finite 212"
  using fl_int_exact [of 900] fl_int_exact [of 180] fl_int_exact [of 212]
  by (simp add: Number_add_def Number_divide_def Number_multiply_def)

lemma below_half_step1: "fl ((5 / 2 - 1 / 2 ^ 51) * 9) = Finite (45 / 2 - 1 / 2 ^ 48)"
proof -
  have "fl ((5 / 2 - 1 / 2 ^ 51) * 9) = Finite (of_int (45 * 2 ^ 47 - 1) * pow2 (4 - 52))"
    by (rule fl_pos) (simp_all add: pow2_def)
  then show ?thesis
    by (simp add: pow2_def)
qed

lemma below_half_step2: "fl ((45 / 2 - 1 / 2 ^ 48) / 5) = Finite (9 / 2 - 1 / 2 ^ 50)"
proof -
  have "fl ((45 / 2 - 1 / 2 ^ 48) / 5) = Finite (of_int (9 * 2 ^ 49 - 1) * pow2 (2 - 52))"
    by (rule fl_pos) (simp_all add: pow2_def)
  then show ?thesis
    by (simp add: pow2_def)
qed

lemma below_half_step3: "fl (9 / 2 - 1 / 2 ^ 50 + 32) = Finite (73 / 2)"
proof -
  have "fl (9 / 2 - 1 / 2 ^ 50 + 32) = Finite (of_int (73 * 2 ^ 46) * pow2 (5 - 52))"
    by (rule fl_pos) (simp_all add: pow2_def)
  then show ?thesis
    by (simp add: pow2_def)
qed

lemma fahrenheit_below_half:
  "Number_add (Number_divide (Number_multiply (Finite (5 / 2 - 1 / 2 ^ 51)) 9) 5) 32 = Finite (73 / 2)"
  by (simp only: Number_add_def Number_divide_def Number_multiply_def double.case
      below_half_step1 below_half_step2 below_half_step3)

lemma exact_below_half: "round ((5 / 2 - 1 / 2 ^ 51) * 9 / 5 + 32 :: rat) = 36"
  unfolding round_def by (rule floor_unique) simp_all

section \<open>The claims\<close>

text \<open>
  C1 (amended). A refresh of an id that a record of the collection has, and whose fetch
  (of the city of the first such record) succeeds, keeps the length and the order of the
  collection: every record with that id is replaced by the fetched record where it
  stands, and every other record is kept; with pairwise distinct ids that is exactly one
  record. The ids of the collection are unchanged when the fetched record carries the
  refreshed id, which the code does not check.
\<close>

theorem refresh_success_in_place:
  assumes "cityId \<in> id' ` set (weatherData s)"
    and "find (\<lambda>data. id' data = cityId) (weatherData s) = Some c"
    and "fst (fetchWeatherData (city c) w) = Inr (Some u)"
  shows "length (weatherData (fst (refreshWeather cityId w s))) = length (weatherData s) \<and>
         (\<forall>i<length (weatherData s).
            weatherData (fst (refreshWeather cityId w s)) ! i =
              (if id' (weatherData s ! i) = cityId then u else weatherData s ! i)) \<and>
         (id' u = cityId \<longrightarrow>
            map id' (weatherData (fst (refreshWeather cityId w s))) = map id' (weatherData s)) \<and>
         (distinct (map id' (weatherData s)) \<longrightarrow>
            length (filter (\<lambda>data. id' data = cityId) (weatherData s)) = 1)"
proof -
  from refreshWeather_success [OF assms(2,3)]
  have new: "weatherData (fst (refreshWeather cityId w s)) =
      map (\<lambda>data. if id' data = cityId then u else data) (weatherData s)"
    by simp
  have len: "length (weatherData (fst (refreshWeather cityId w s))) = length (weatherData s)"
    by (simp add: new)
  have nth: "\<forall>i<length (weatherData s).
            weatherData (fst (refreshWeather cityId w s)) ! i =
              (if id' (weatherData s ! i) = cityId then u else weatherData s ! i)"
    by (simp add: new)
  have ids: "map id' (weatherData (fst (refreshWeather cityId w s))) = map id' (weatherData s)"
    if "id' u = cityId"
    unfolding new using that by (rule refresh_map_ids)
  have once: "length (filter (\<lambda>data. id' data = cityId) (weatherData s)) = 1"
    if "distinct (map id' (weatherData s))"
    using that assms(1) by (rule distinct_once)
  from len nth ids once show ?thesis
    by blast
qed

theorem refresh_success_in_place_witness:
  "weatherData (fst (refreshWeather 1 (steady 1 (js ''London''))
      (dashboard [record_of 2 (js ''Tokyo'') 5, record_of 1 (js ''London'') 7] []))) =
     [record_of 2 (js ''Tokyo'') 5, record_of 1 (js ''London'') 1000]"
proof -
  let ?xs = "[record_of 2 (js ''Tokyo'') 5, record_of 1 (js ''London'') 7]"
  let ?s = "dashboard ?xs []"
  let ?w = "steady 1 (js ''London'')"
  let ?new = "weatherData (fst (refreshWeather 1 ?w ?s))"
  have xs: "weatherData ?s = ?xs"
    by (simp add: dashboard_def)
  have h1: "1 \<in> id' ` set (weatherData ?s)"
    by (simp add: xs)
  have h2: "find (\<lambda>data. id' data = 1) (weatherData ?s) = Some (record_of 1 (js ''London'') 7)"
    by (simp add: xs)
  have h3: "fst (fetchWeatherData (city (record_of 1 (js ''London'') 7)) ?w) =
      Inr (Some (record_of 1 (js ''London'') 1000))"
    by (rule fetchWeatherData_steady)
  from refresh_success_in_place [OF h1 h2 h3]
  have len: "length ?new = 2"
    and nth: "\<forall>i<2. ?new ! i = (if id' (?xs ! i) = 1 then record_of 1 (js ''London'') 1000 else ?xs ! i)"
    unfolding xs by simp_all
  from nth have "?new ! 0 = record_of 2 (js ''Tokyo'') 5" and "?new ! 1 = record_of 1 (js ''London'') 1000"
    by simp_all
  with len show ?thesis
    by (simp add: list_eq_iff_nth_eq less_Suc_eq numeral_2_eq_2)
qed

text \<open>
  The claim as stated fails where the API answers with another id: the record at the
  refreshed position then changes its id (here from 1 to 2).
\<close>

theorem refresh_id_counterexample:
  "1 \<in> id' ` set (weatherData (dashboard [record_of 1 (js ''London'') 7] [])) \<and>
   fst (fetchWeatherData (js ''London'') (steady 2 (js ''London''))) =
     Inr (Some (record_of 2 (js ''London'') 1000)) \<and>
   id' (weatherData (dashboard [record_of 1 (js ''London'') 7] []) ! 0) = 1 \<and>
   id' (weatherData (fst (refreshWeather 1 (steady 2 (js ''London''))
      (dashboard [record_of 1 (js ''London'') 7] []))) ! 0) = 2"
proof -
  let ?s = "dashboard [record_of 1 (js ''London'') 7] []"
  let ?w = "steady 2 (js ''London'')"
  have xs: "weatherData ?s = [record_of 1 (js ''London'') 7]"
    by (simp add: dashboard_def)
  have h2: "find (\<lambda>data. id' data = 1) (weatherData ?s) = Some (record_of 1 (js ''London'') 7)"
    by (simp add: xs)
  have h3: "fst (fetchWeatherData (city (record_of 1 (js ''London'') 7)) ?w) =
      Inr (Some (record_of 2 (js ''London'') 1000))"
    by (rule fetchWeatherData_steady)
  from refreshWeather_success [OF h2 h3] h3 show ?thesis
    unfolding xs by simp
qed

text \<open>
  C2 (amended). From a collection with pairwise distinct ids, the ids stay pairwise
  distinct: after the initial load, when the records fetched for different positions of
  the city list have different ids; after a successful search, when every record that has
  the id of the fetched record also has its city name; after a successful refresh, when
  the fetched record has the refreshed id or an id that no record of the collection has.
\<close>

theorem ids_stay_distinct:
  assumes "distinct (map id' (weatherData s))"
  shows
    "((\<forall>i<length cities. \<forall>j<length cities. i \<noteq> j \<longrightarrow>
         (\<forall>a b. fetched (cities ! i) (w\<lparr>requests := requests w @ take i cities\<rparr>) = Some a \<and>
                fetched (cities ! j) (w\<lparr>requests := requests w @ take j cities\<rparr>) = Some b \<longrightarrow>
                id' a \<noteq> id' b)) \<longrightarrow>
      distinct (map id' (weatherData (fst (loadInitialData cities w s))))) \<and>
     ((\<exists>c\<in>set (searchCity s). \<not> isWhiteSpace c) \<and>
      fst (fetchWeatherData (searchCity s) w) = Inr (Some r) \<and>
      (\<forall>x\<in>set (weatherData s). id' x = id' r \<longrightarrow> city x = city r) \<longrightarrow>
      distinct (map id' (weatherData (fst (handleSearch w s))))) \<and>
     (find (\<lambda>data. id' data = cityId) (weatherData s) = Some c \<and>
      fst (fetchWeatherData (city c) w) = Inr (Some u) \<and>
      (id' u = cityId \<or> id' u \<notin> id' ` set (weatherData s)) \<longrightarrow>
      distinct (map id' (weatherData (fst (refreshWeather cityId w s)))))"
proof (intro conjI impI)
  let ?F = "\<lambda>i. fetched (cities ! i) (w\<lparr>requests := requests w @ take i cities\<rparr>)"
  assume "\<forall>i<length cities. \<forall>j<length cities. i \<noteq> j \<longrightarrow>
      (\<forall>a b. ?F i = Some a \<and> ?F j = Some b \<longrightarrow> id' a \<noteq> id' b)"
  then have "\<forall>i\<in>set [0..<length cities]. \<forall>j\<in>set [0..<length cities]. i \<noteq> j \<longrightarrow>
      (\<forall>a b. ?F i = Some a \<and> ?F j = Some b \<longrightarrow> id' a \<noteq> id' b)"
    by simp
  with distinct_upt
  have "distinct (map id' (concat (map (\<lambda>i. case ?F i of None \<Rightarrow> [] | Some r \<Rightarrow> [r])
      [0..<length cities])))"
    by (rule distinct_successes)
  then show "distinct (map id' (weatherData (fst (loadInitialData cities w s))))"
    by (simp add: loadInitialData_eq successes_concat del: not_None_eq)
next
  assume h: "(\<exists>c\<in>set (searchCity s). \<not> isWhiteSpace c) \<and>
      fst (fetchWeatherData (searchCity s) w) = Inr (Some r) \<and>
      (\<forall>x\<in>set (weatherData s). id' x = id' r \<longrightarrow> city x = city r)"
  then have "trim (searchCity s) \<noteq> []"
    by (simp add: trim_empty_iff)
  with h have "weatherData (fst (handleSearch w s)) =
      r # filter (\<lambda>item. city item \<noteq> city r) (weatherData s)"
    by (simp add: handleSearch_success)
  moreover from assms h
  have "distinct (map id' (r # filter (\<lambda>item. city item \<noteq> city r) (weatherData s)))"
    by (intro search_distinct) simp_all
  ultimately show "distinct (map id' (weatherData (fst (handleSearch w s))))"
    by simp
next
  assume h: "find (\<lambda>data. id' data = cityId) (weatherData s) = Some c \<and>
      fst (fetchWeatherData (city c) w) = Inr (Some u) \<and>
      (id' u = cityId \<or> id' u \<notin> id' ` set (weatherData s))"
  then have "weatherData (fst (refreshWeather cityId w s)) =
      map (\<lambda>data. if id' data = cityId then u else data) (weatherData s)"
    by (simp add: refreshWeather_success)
  moreover from assms h
  have "distinct (map id' (map (\<lambda>data. if id' data = cityId then u else data) (weatherData s)))"
    by (intro refresh_map_distinct) simp_all
  ultimately show "distinct (map id' (weatherData (fst (refreshWeather cityId w s))))"
    by simp
qed

theorem ids_stay_distinct_witness:
  "distinct (map id' (weatherData (dashboard
      [record_of 1850147 (js ''Tokyo'') 5, record_of 2643743 (js ''London'') 7] (js ''London'')))) \<and>
   distinct (map id' (weatherData (fst (loadInitialData
      [js ''London'', js ''Unknownville'', js ''Tokyo''] atlas
      (dashboard [record_of 1850147 (js ''Tokyo'') 5, record_of 2643743 (js ''London'') 7]
         (js ''London'')))))) \<and>
   distinct (map id' (weatherData (fst (handleSearch atlas
      (dashboard [record_of 1850147 (js ''Tokyo'') 5, record_of 2643743 (js ''London'') 7]
         (js ''London'')))))) \<and>
   distinct (map id' (weatherData (fst (refreshWeather 2643743 atlas
      (dashboard [record_of 1850147 (js ''Tokyo'') 5, record_of 2643743 (js ''London'') 7]
         (js ''London''))))))"
proof -
  let ?xs = "[record_of 1850147 (js ''Tokyo'') 5, record_of 2643743 (js ''London'') 7]"
  let ?s = "dashboard ?xs (js ''London'')"
  let ?r = "record_of 2643743 (js ''London'') 1000"
  let ?cities = "[js ''London'', js ''Unknownville'', js ''Tokyo'']"
  have q: "searchCity ?s = js ''London''" and xs: "weatherData ?s = ?xs"
    by (simp_all add: dashboard_def)
  have d: "distinct (map id' (weatherData ?s))"
    by (simp add: xs)
  have blank: "\<exists>c\<in>set (searchCity ?s). \<not> isWhiteSpace c"
    unfolding q by (rule London_not_blank)
  have got: "fst (fetchWeatherData (searchCity ?s) atlas) = Inr (Some ?r)"
    unfolding q by (rule fetchWeatherData_atlas_London)
  have same: "\<forall>x\<in>set (weatherData ?s). id' x = id' ?r \<longrightarrow> city x = city ?r"
    by (simp add: xs)
  have found: "find (\<lambda>data. id' data = 2643743) (weatherData ?s) =
      Some (record_of 2643743 (js ''London'') 7)"
    by (simp add: xs)
  have got': "fst (fetchWeatherData (city (record_of 2643743 (js ''London'') 7)) atlas) =
      Inr (Some ?r)"
    using fetchWeatherData_atlas_London by simp
  have idr: "id' ?r = 2643743 \<or> id' ?r \<notin> id' ` set (weatherData ?s)"
    by simp
  have apart: "\<forall>i<length ?cities. \<forall>j<length ?cities. i \<noteq> j \<longrightarrow>
      (\<forall>a b. fetched (?cities ! i) (atlas\<lparr>requests := requests atlas @ take i ?cities\<rparr>) = Some a \<and>
             fetched (?cities ! j) (atlas\<lparr>requests := requests atlas @ take j ?cities\<rparr>) = Some b \<longrightarrow>
             id' a \<noteq> id' b)"
    by (simp add: less_Suc_eq fetched_atlas_first fetched_atlas_London fetched_atlas_Tokyo
        fetched_atlas_Unknownville)
  from ids_stay_distinct [OF d, of ?cities atlas ?r 2643743 "record_of 2643743 (js ''London'') 7" ?r]
    apart blank got same found got' idr d
  show ?thesis
    by blast
qed

text \<open>
  The claim as stated fails: the search removes records by city name, not by id. After
  an initial load in which every request is rejected, a search that is answered with id
  1275339 under the name Bombay and a second one answered with the same id under the
  name Mumbai leave two records with that id.
\<close>

theorem ids_distinct_counterexample:
  "weatherData (fst trace_loaded) = [] \<and>
   weatherData (fst trace_first) = [record_of 1275339 (js ''Bombay'') 1005] \<and>
   distinct (map id' (weatherData (fst trace_first))) \<and>
   fst (fetchWeatherData (js ''Mumbai'') (snd trace_first)) =
     Inr (Some (record_of 1275339 (js ''Mumbai'') 1006)) \<and>
   weatherData (fst trace_second) =
     [record_of 1275339 (js ''Mumbai'') 1006, record_of 1275339 (js ''Bombay'') 1005] \<and>
   \<not> distinct (map id' (weatherData (fst trace_second)))"
  by code_simp

text \<open>
  C3. For every list of cities and every behaviour of the API, the initial load issues one
  request per city, in the order of the list, and sets the collection to the records of
  the fetches that succeed, in the order of their cities in the list; its length is the
  length of the list minus the number of fetches that fail.
\<close>

theorem initialize_keeps_successes:
  "weatherData (fst (loadInitialData cities w s)) =
     concat (map (\<lambda>i. case fetched (cities ! i) (w\<lparr>requests := requests w @ take i cities\<rparr>) of
                        None \<Rightarrow> [] | Some r \<Rightarrow> [r]) [0..<length cities]) \<and>
   length (weatherData (fst (loadInitialData cities w s))) =
     length cities - length (filter (\<lambda>i. fetched (cities ! i)
        (w\<lparr>requests := requests w @ take i cities\<rparr>) = None) [0..<length cities]) \<and>
   length (weatherData (fst (loadInitialData cities w s))) \<le> length cities \<and>
   requests (snd (loadInitialData cities w s)) = requests w @ cities"
proof -
  let ?F = "\<lambda>i. fetched (cities ! i) (w\<lparr>requests := requests w @ take i cities\<rparr>)"
  have new: "weatherData (fst (loadInitialData cities w s)) =
      map the (filter (\<lambda>d. d \<noteq> None) (map ?F [0..<length cities]))"
    by (simp add: loadInitialData_eq del: not_None_eq)
  have len: "length (weatherData (fst (loadInitialData cities w s))) =
      length cities - length (filter (\<lambda>i. ?F i = None) [0..<length cities])"
    unfolding new using successes_length [of ?F "[0..<length cities]"] by simp
  have log: "requests (snd (loadInitialData cities w s)) = requests w @ cities"
    by (simp add: loadInitialData_eq)
  from new len log show ?thesis
    by (simp add: successes_concat del: not_None_eq)
qed

theorem initialize_keeps_successes_witness:
  "weatherData (fst (loadInitialData [js ''London'', js ''Unknownville'', js ''Tokyo''] atlas
      initial_state)) =
     [record_of 2643743 (js ''London'') 1000, record_of 1850147 (js ''Tokyo'') 1002] \<and>
   length (weatherData (fst (loadInitialData [js ''London'', js ''Unknownville'', js ''Tokyo'']
      atlas initial_state))) = 3 - 1"
proof -
  let ?cities = "[js ''London'', js ''Unknownville'', js ''Tokyo'']"
  have upt3: "[0..<length ?cities] = [0, 1, 2]"
    by (simp add: upt_rec)
  from initialize_keeps_successes [of ?cities atlas initial_state] show ?thesis
    unfolding upt3
    by (simp add: fetched_atlas_first fetched_atlas_London fetched_atlas_Tokyo
        fetched_atlas_Unknownville requests_atlas)
qed

text \<open>
  C4 (amended). A search with a query that is not blank and whose fetch succeeds with a
  record \<open>r\<close> sets the collection to \<open>r\<close> followed by the old records whose city differs
  from the city of \<open>r\<close> (equality of the strings, so case-sensitive): \<open>r\<close> is at index 0
  and the size is one more than the number of old records with another city. The size is
  the old size exactly when one and only one old record has the city of \<open>r\<close>.
\<close>

theorem search_success_prepends:
  assumes "\<exists>c\<in>set (searchCity s). \<not> isWhiteSpace c"
    and "fst (fetchWeatherData (searchCity s) w) = Inr (Some r)"
  shows "weatherData (fst (handleSearch w s)) =
           r # filter (\<lambda>item. city item \<noteq> city r) (weatherData s) \<and>
         weatherData (fst (handleSearch w s)) ! 0 = r \<and>
         length (weatherData (fst (handleSearch w s))) =
           1 + length (filter (\<lambda>item. city item \<noteq> city r) (weatherData s)) \<and>
         (length (weatherData (fst (handleSearch w s))) = length (weatherData s) \<longleftrightarrow>
            length (filter (\<lambda>item. city item = city r) (weatherData s)) = 1)"
proof -
  from assms(1) have "trim (searchCity s) \<noteq> []"
    by (simp add: trim_empty_iff)
  from handleSearch_success [OF this assms(2)]
  have new: "weatherData (fst (handleSearch w s)) =
      r # filter (\<lambda>item. city item \<noteq> city r) (weatherData s)"
    by simp
  have "length (weatherData s) =
      length (filter (\<lambda>item. city item = city r) (weatherData s)) +
      length (filter (\<lambda>item. city item \<noteq> city r) (weatherData s))"
    using length_filter_split [of "weatherData s" "\<lambda>item. city item = city r"] by simp
  with new show ?thesis
    by auto
qed

theorem search_success_prepends_witness:
  "weatherData (fst (handleSearch (steady 1 (js ''London''))
      (dashboard [record_of 2 (js ''Tokyo'') 5, record_of 1 (js ''London'') 7] (js ''London'')))) =
     [record_of 1 (js ''London'') 1000, record_of 2 (js ''Tokyo'') 5] \<and>
   length (weatherData (fst (handleSearch (steady 1 (js ''London''))
      (dashboard [record_of 2 (js ''Tokyo'') 5, record_of 1 (js ''London'') 7] (js ''London''))))) = 2"
proof -
  let ?s = "dashboard [record_of 2 (js ''Tokyo'') 5, record_of 1 (js ''London'') 7] (js ''London'')"
  let ?w = "steady 1 (js ''London'')"
  have q: "searchCity ?s = js ''London''"
    and xs: "weatherData ?s = [record_of 2 (js ''Tokyo'') 5, record_of 1 (js ''London'') 7]"
    by (simp_all add: dashboard_def)
  have h1: "\<exists>c\<in>set (searchCity ?s). \<not> isWhiteSpace c"
    unfolding q by (rule London_not_blank)
  have h2: "fst (fetchWeatherData (searchCity ?s) ?w) = Inr (Some (record_of 1 (js ''London'') 1000))"
    by (rule fetchWeatherData_steady)
  have ne: "js ''Tokyo'' \<noteq> js ''London''"
    by (simp add: js_def)
  from search_success_prepends [OF h1 h2] ne show ?thesis
    unfolding xs by simp
qed

text \<open>
  The claim as stated fails for a collection in which the city is present twice: both
  records are removed and the size goes from 2 to 1.
\<close>

theorem search_same_size_counterexample:
  "city (record_of 2 (js ''London'') 5) = city (record_of 1 (js ''London'') 1000) \<and>
   fst (fetchWeatherData (searchCity (dashboard [record_of 2 (js ''London'') 5, record_of 1 (js ''London'') 7] (js ''London'')))
     (steady 1 (js ''London''))) = Inr (Some (record_of 1 (js ''London'') 1000)) \<and>
   length (weatherData (dashboard [record_of 2 (js ''London'') 5, record_of 1 (js ''London'') 7] (js ''London''))) = 2 \<and>
   length (weatherData (fst (handleSearch (steady 1 (js ''London''))
      (dashboard [record_of 2 (js ''London'') 5, record_of 1 (js ''London'') 7] (js ''London''))))) = 1"
proof -
  let ?s = "dashboard [record_of 2 (js ''London'') 5, record_of 1 (js ''London'') 7] (js ''London'')"
  let ?w = "steady 1 (js ''London'')"
  have q: "searchCity ?s = js ''London''"
    and xs: "weatherData ?s = [record_of 2 (js ''London'') 5, record_of 1 (js ''London'') 7]"
    by (simp_all add: dashboard_def)
  have h1: "trim (searchCity ?s) \<noteq> []"
    unfolding q using London_not_blank by (simp add: trim_empty_iff)
  have h2: "fst (fetchWeatherData (searchCity ?s) ?w) = Inr (Some (record_of 1 (js ''London'') 1000))"
    by (rule fetchWeatherData_steady)
  from handleSearch_success [OF h1 h2] h2 show ?thesis
    unfolding xs by simp
qed

text \<open>
  C5. A search with a query that is not blank and whose fetch fails leaves the collection
  as it was and sets an error message that is not empty.
\<close>

theorem search_failure_keeps_collection:
  assumes "\<exists>c\<in>set (searchCity s). \<not> isWhiteSpace c"
    and "fst (fetchWeatherData (searchCity s) w) = Inr None"
  shows "weatherData (fst (handleSearch w s)) = weatherData s \<and>
         error (fst (handleSearch w s)) \<noteq> []"
proof -
  from assms(1) have "trim (searchCity s) \<noteq> []"
    by (simp add: trim_empty_iff)
  from handleSearch_failed [OF this assms(2)] show ?thesis
    by (simp add: not_found_message)
qed

theorem search_failure_keeps_collection_witness:
  "(\<exists>c\<in>set (searchCity (dashboard [record_of 1 (js ''London'') 7] (js ''Atlantis''))).
      \<not> isWhiteSpace c) \<and>
   fst (fetchWeatherData (searchCity (dashboard [record_of 1 (js ''London'') 7]
     (js ''Atlantis''))) offline) = Inr None \<and>
   weatherData (fst (handleSearch offline
     (dashboard [record_of 1 (js ''London'') 7] (js ''Atlantis'')))) =
     [record_of 1 (js ''London'') 7] \<and>
   error (fst (handleSearch offline
     (dashboard [record_of 1 (js ''London'') 7] (js ''Atlantis'')))) \<noteq> []"
proof -
  let ?s = "dashboard [record_of 1 (js ''London'') 7] (js ''Atlantis'')"
  have q: "searchCity ?s = js ''Atlantis''" and xs: "weatherData ?s = [record_of 1 (js ''London'') 7]"
    by (simp_all add: dashboard_def)
  have h1: "\<exists>c\<in>set (searchCity ?s). \<not> isWhiteSpace c"
    unfolding q by (rule Atlantis_not_blank)
  have h2: "fst (fetchWeatherData (searchCity ?s) offline) = Inr None"
    by (rule fetchWeatherData_offline)
  from search_failure_keeps_collection [OF h1 h2] h1 h2 xs show ?thesis
    by simp
qed

text \<open>
  C6. A search with an empty query, or one of white space only, makes no request and
  changes nothing: the state (the collection and the error message with it) and the log
  of requests are what they were.
\<close>

theorem blank_search_noop:
  assumes "\<forall>c\<in>set (searchCity s). isWhiteSpace c"
  shows "handleSearch w s = (s, w)"
  using assms by (simp add: handleSearch_blank trim_empty_iff)

theorem blank_search_noop_witness:
  "list_all isWhiteSpace (searchCity (dashboard [record_of 1 (js ''London'') 7] (js ''   ''))) \<and>
   handleSearch offline (dashboard [record_of 1 (js ''London'') 7] (js ''   '')) =
     (dashboard [record_of 1 (js ''London'') 7] (js ''   ''), offline)"
proof -
  let ?s = "dashboard [record_of 1 (js ''London'') 7] (js ''   '')"
  have h: "\<forall>c\<in>set (searchCity ?s). isWhiteSpace c"
    by (simp add: dashboard_def js_def isWhiteSpace_def)
  from blank_search_noop [OF h] h show ?thesis
    by (simp add: list_all_iff)
qed

text \<open>
  C7. A refresh of an id that no record of the collection has makes no request and
  changes nothing: no fetch, the same collection, the same error message.
\<close>

theorem refresh_absent_noop:
  assumes "cityId \<notin> id' ` set (weatherData s)"
  shows "refreshWeather cityId w s = (s, w)"
  using find_absent [OF assms] by (simp add: refreshWeather_def)

theorem refresh_absent_noop_witness:
  "2 \<notin> id' ` set (weatherData (dashboard [record_of 1 (js ''London'') 7] [])) \<and>
   refreshWeather 2 offline (dashboard [record_of 1 (js ''London'') 7] []) =
     (dashboard [record_of 1 (js ''London'') 7] [], offline)"
proof -
  let ?s = "dashboard [record_of 1 (js ''London'') 7] []"
  have h: "2 \<notin> id' ` set (weatherData ?s)"
    by (simp add: dashboard_def record_of_def)
  from refresh_absent_noop [OF h] h show ?thesis
    by simp
qed

text \<open>
  C8. A refresh of an id that a record of the collection has, and whose fetch (of the
  city of the first such record) fails, leaves the collection and the error message as
  they were.
\<close>

theorem refresh_failure_silent:
  assumes "cityId \<in> id' ` set (weatherData s)"
    and "find (\<lambda>data. id' data = cityId) (weatherData s) = Some c"
    and "fst (fetchWeatherData (city c) w) = Inr None"
  shows "weatherData (fst (refreshWeather cityId w s)) = weatherData s \<and>
         error (fst (refreshWeather cityId w s)) = error s"
  using refreshWeather_failed [OF assms(2,3)] by simp

theorem refresh_failure_silent_witness:
  "1 \<in> id' ` set (weatherData (dashboard [record_of 1 (js ''London'') 7] [])) \<and>
   find (\<lambda>data. id' data = 1) (weatherData (dashboard [record_of 1 (js ''London'') 7] [])) =
     Some (record_of 1 (js ''London'') 7) \<and>
   fst (fetchWeatherData (city (record_of 1 (js ''London'') 7)) offline) = Inr None \<and>
   weatherData (fst (refreshWeather 1 offline (dashboard [record_of 1 (js ''London'') 7] []))) =
     [record_of 1 (js ''London'') 7] \<and>
   error (fst (refreshWeather 1 offline (dashboard [record_of 1 (js ''London'') 7] []))) = []"
proof -
  let ?r = "record_of 1 (js ''London'') 7"
  let ?s = "dashboard [?r] []"
  have xs: "weatherData ?s = [?r]" and e: "error ?s = []"
    by (simp_all add: dashboard_def)
  have i: "id' ?r = 1"
    by (simp add: record_of_def)
  have h1: "1 \<in> id' ` set (weatherData ?s)"
    by (simp add: xs i)
  have h2: "find (\<lambda>data. id' data = 1) (weatherData ?s) = Some ?r"
    by (simp add: xs i)
  have h3: "fst (fetchWeatherData (city ?r) offline) = Inr None"
    by (rule fetchWeatherData_offline)
  from refresh_failure_silent [OF h1 h2 h3] h1 h2 h3 xs e show ?thesis
    by simp
qed

text \<open>
  C9 (amended). The temperature shown for a Celsius value, the spec's \<open>displayTemp\<close>, is
  the text of \<open>Math.round v\<close> followed by the degree sign and C or F, where \<open>v\<close> is the
  value itself when the Celsius flag is set and otherwise the result of
  \<open>celsius * 9 / 5 + 32\<close> in double arithmetic, each operation rounded. For a finite \<open>v\<close>
  the rounded value is the integer nearest to \<open>v\<close> (a tie goes up), printed in plain
  decimal digits when below \<open>10^15\<close> in size; for NaN and the infinities the text is NaN,
  Infinity or -Infinity. It is "0 C" for 0 in Celsius, "32 F" for 0 and "212 F" for 100 in
  Fahrenheit (with the degree sign before the letter).
\<close>

theorem displayTemp_double:
  "formatTemp s (convertTemp s celsius) =
     NumberToString (Math_round
       (if isCelsius s then celsius
        else Number_add (Number_divide (Number_multiply celsius 9) 5) 32)) @
     [0xB0] @ js (if isCelsius s then ''C'' else ''F'') \<and>
   Math_round (Finite v) = Integer \<lfloor>v + 1 / 2\<rfloor> \<and>
   of_int \<lfloor>v + 1 / 2\<rfloor> - 1 / 2 \<le> v \<and> v < of_int \<lfloor>v + 1 / 2\<rfloor> + 1 / 2 \<and>
   (\<bar>n\<bar> < 10 ^ 15 \<longrightarrow>
      NumberToString (Integer n) = (if n < 0 then 0x2D # digits (- n) else digits n)) \<and>
   NumberToString (Math_round NaN) = js ''NaN'' \<and>
   NumberToString (Math_round PosInf) = js ''Infinity'' \<and>
   NumberToString (Math_round NegInf) = js ''-Infinity'' \<and>
   formatTemp (s\<lparr>isCelsius := True\<rparr>) (convertTemp (s\<lparr>isCelsius := True\<rparr>) (Finite 0)) =
     js ''0'' @ [0xB0] @ js ''C'' \<and>
   formatTemp (s\<lparr>isCelsius := False\<rparr>) (convertTemp (s\<lparr>isCelsius := False\<rparr>) (Finite 0)) =
     js ''32'' @ [0xB0] @ js ''F'' \<and>
   formatTemp (s\<lparr>isCelsius := False\<rparr>) (convertTemp (s\<lparr>isCelsius := False\<rparr>) (Finite 100)) =
     js ''212'' @ [0xB0] @ js ''F''"
proof -
  have formula: "formatTemp s (convertTemp s celsius) =
     NumberToString (Math_round
       (if isCelsius s then celsius
        else Number_add (Number_divide (Number_multiply celsius 9) 5) 32)) @
     [0xB0] @ js (if isCelsius s then ''C'' else ''F'')"
    by (simp add: formatTemp_def convertTemp_def)
  have "of_int \<lfloor>v + 1 / 2\<rfloor> \<le> v + 1 / 2" and "v + 1 / 2 < of_int \<lfloor>v + 1 / 2\<rfloor> + 1"
    by linarith+
  then have lower: "of_int \<lfloor>v + 1 / 2\<rfloor> - 1 / 2 \<le> v"
    and upper: "v < of_int \<lfloor>v + 1 / 2\<rfloor> + 1 / 2"
    by linarith+
  have small: "NumberToString (Integer n) = (if n < 0 then 0x2D # digits (- n) else digits n)"
    if "\<bar>n\<bar> < 10 ^ 15"
    using that by (rule NumberToString_small)
  have special: "NumberToString (Math_round NaN) = js ''NaN''"
    "NumberToString (Math_round PosInf) = js ''Infinity''"
    "NumberToString (Math_round NegInf) = js ''-Infinity''"
    by (simp_all add: Math_round_def NumberToString_def)
  have ex1: "formatTemp (s\<lparr>isCelsius := True\<rparr>) (convertTemp (s\<lparr>isCelsius := True\<rparr>) (Finite 0)) =
     js ''0'' @ [0xB0] @ js ''C''"
    by (simp add: formatTemp_def convertTemp_def Math_round_examples NumberToString_small
        digits_examples)
  have ex2: "formatTemp (s\<lparr>isCelsius := False\<rparr>) (convertTemp (s\<lparr>isCelsius := False\<rparr>) (Finite 0)) =
     js ''32'' @ [0xB0] @ js ''F''"
    by (simp add: formatTemp_def convertTemp_def fahrenheit_0 Math_round_examples
        NumberToString_small digits_examples)
  have ex3: "formatTemp (s\<lparr>isCelsius := False\<rparr>) (convertTemp (s\<lparr>isCelsius := False\<rparr>) (Finite 100)) =
     js ''212'' @ [0xB0] @ js ''F''"
    by (simp add: formatTemp_def convertTemp_def fahrenheit_100 Math_round_examples
        NumberToString_small digits_examples)
  from formula Math_round_Finite [of v] lower upper small special ex1 ex2 ex3 show ?thesis
    by blast
qed

theorem displayTemp_double_witness:
  "NumberToString (Integer 212) = js ''212'' \<and>
   NumberToString (Integer (- 40)) = 0x2D # js ''40'' \<and>
   formatTemp (initial_state\<lparr>isCelsius := False\<rparr>)
     (convertTemp (initial_state\<lparr>isCelsius := False\<rparr>) (Finite 100)) =
     js ''212'' @ [0xB0] @ js ''F''"
proof -
  have d40: "digits 40 = js ''40''"
    by (simp add: js_def digits.simps [of 40] digits.simps [of 4])
  have a: "\<bar>212 :: int\<bar> < 10 ^ 15" and b: "\<bar>- 40 :: int\<bar> < 10 ^ 15"
    by simp_all
  from displayTemp_double [of initial_state "Finite 100" 0 212] a
  have "NumberToString (Integer 212) = js ''212''"
    and "formatTemp (initial_state\<lparr>isCelsius := False\<rparr>)
     (convertTemp (initial_state\<lparr>isCelsius := False\<rparr>) (Finite 100)) =
     js ''212'' @ [0xB0] @ js ''F''"
    by (simp_all add: digits_examples)
  moreover from displayTemp_double [of initial_state "Finite 100" 0 "- 40"] b
  have "NumberToString (Integer (- 40)) = 0x2D # js ''40''"
    by (simp add: d40)
  ultimately show ?thesis
    by simp
qed

text \<open>
  The claim as stated fails. Read in exact arithmetic, \<open>celsius * 9/5 + 32\<close> for the
  double \<open>2.5 - 2^-51\<close> is below 36.5 and rounds to 36, but the three rounded operations
  give 36.5 and the code shows 37. And an infinite value is shown as Infinity, which is
  no integer.
\<close>

theorem displayTemp_exact_counterexample:
  "formatTemp (initial_state\<lparr>isCelsius := False\<rparr>)
     (convertTemp (initial_state\<lparr>isCelsius := False\<rparr>) (Finite (5 / 2 - 1 / 2 ^ 51))) =
     js ''37'' @ [0xB0] @ js ''F'' \<and>
   round ((5 / 2 - 1 / 2 ^ 51) * 9 / 5 + 32 :: rat) = 36 \<and>
   formatTemp (initial_state\<lparr>isCelsius := True\<rparr>)
     (convertTemp (initial_state\<lparr>isCelsius := True\<rparr>) PosInf) =
     js ''Infinity'' @ [0xB0] @ js ''C''"
proof -
  have f: "\<not> isCelsius (initial_state\<lparr>isCelsius := False\<rparr>)"
    by simp
  have "NumberToString (Integer 37) = js ''37''"
    by (simp add: NumberToString_small digits_examples)
  then have "formatTemp (initial_state\<lparr>isCelsius := False\<rparr>)
     (convertTemp (initial_state\<lparr>isCelsius := False\<rparr>) (Finite (5 / 2 - 1 / 2 ^ 51))) =
     js ''37'' @ [0xB0] @ js ''F''"
    by (simp only: formatTemp_fahrenheit [OF f] convertTemp_fahrenheit [OF f]
        fahrenheit_below_half Math_round_half)
  moreover have "formatTemp (initial_state\<lparr>isCelsius := True\<rparr>)
     (convertTemp (initial_state\<lparr>isCelsius := True\<rparr>) PosInf) =
     js ''Infinity'' @ [0xB0] @ js ''C''"
    by (simp add: formatTemp_def convertTemp_def Math_round_def NumberToString_def)
  ultimately show ?thesis
    using exact_below_half by simp
qed

text \<open>
  C10. \<open>fetchWeatherData\<close> never throws: it returns, and it returns \<open>null\<close> exactly
  when the request is rejected (network error, status outside 2xx) or the body has an
  empty \<open>weather\<close> array. So the \<open>catch\<close> of \<open>handleSearch\<close> is never entered: a search
  never sets the message "Failed to fetch weather data. Please try again.", and a search
  that is not blank and whose fetch fails sets exactly "City not found. Please try
  again.".
\<close>

theorem fetch_never_throws:
  "(\<exists>r. fst (fetchWeatherData q w) = Inr r) \<and>
   (fst (fetchWeatherData q w) = Inr None \<longleftrightarrow>
      respond w (length (requests w)) q = Rejected \<or>
      (\<exists>r. respond w (length (requests w)) q = Fulfilled r \<and> weather r = [])) \<and>
   (error s \<noteq> js ''Failed to fetch weather data. Please try again.'' \<longrightarrow>
      error (fst (handleSearch w s)) \<noteq> js ''Failed to fetch weather data. Please try again.'') \<and>
   ((\<exists>c\<in>set (searchCity s). \<not> isWhiteSpace c) \<and>
      fst (fetchWeatherData (searchCity s) w) = Inr None \<longrightarrow>
      error (fst (handleSearch w s)) = js ''City not found. Please try again.'')"
proof -
  have returns: "\<exists>r. fst (fetchWeatherData q w) = Inr r"
    by (rule fetchWeatherData_returns)
  have null_iff: "fst (fetchWeatherData q w) = Inr None \<longleftrightarrow>
      respond w (length (requests w)) q = Rejected \<or>
      (\<exists>r. respond w (length (requests w)) q = Fulfilled r \<and> weather r = [])"
    by (simp add: fetchWeatherData_None_iff split: axios_outcome.split)
  have no_catch: "error (fst (handleSearch w s)) \<noteq>
      js ''Failed to fetch weather data. Please try again.''"
    if old: "error s \<noteq> js ''Failed to fetch weather data. Please try again.''"
  proof (cases "trim (searchCity s) = []")
    case True
    with old show ?thesis
      by (simp add: handleSearch_blank)
  next
    case False
    obtain r where r: "fst (fetchWeatherData (searchCity s) w) = Inr r"
      using fetchWeatherData_returns by blast
    show ?thesis
    proof (cases r)
      case None
      with handleSearch_failed [OF False] r show ?thesis
        by (simp add: not_found_message)
    next
      case (Some d)
      with handleSearch_success [OF False] r show ?thesis
        by (simp add: js_def)
    qed
  qed
  have not_found: "error (fst (handleSearch w s)) = js ''City not found. Please try again.''"
    if "\<exists>c\<in>set (searchCity s). \<not> isWhiteSpace c"
      and "fst (fetchWeatherData (searchCity s) w) = Inr None"
    using that handleSearch_failed [of s w] by (simp add: trim_empty_iff)
  from returns null_iff no_catch not_found show ?thesis
    by blast
qed

theorem fetch_never_throws_witness:
  "fst (fetchWeatherData (js ''Atlantis'') no_conditions) = Inr None \<and>
   error (fst (handleSearch no_conditions (dashboard [] (js ''Atlantis'')))) =
     js ''City not found. Please try again.'' \<and>
   error (fst (handleSearch no_conditions (dashboard [] (js ''Atlantis'')))) \<noteq>
     js ''Failed to fetch weather data. Please try again.''"
proof -
  let ?q = "js ''Atlantis''"
  let ?s = "dashboard [] ?q"
  have q: "searchCity ?s = ?q" and e: "error ?s = []"
    by (simp_all add: dashboard_def)
  have out: "respond no_conditions (length (requests no_conditions)) ?q =
      Fulfilled ((response_of 1 ?q)\<lparr>weather := []\<rparr>)"
    by (simp add: no_conditions_def world_of_def)
  have empty: "weather ((response_of 1 ?q)\<lparr>weather := []\<rparr>) = []"
    by simp
  have old: "error ?s \<noteq> js ''Failed to fetch weather data. Please try again.''"
    unfolding e by (simp add: js_def)
  have blank: "\<exists>c\<in>set (searchCity ?s). \<not> isWhiteSpace c"
    unfolding q by (rule Atlantis_not_blank)
  from fetch_never_throws [of ?q no_conditions ?s] out empty have null: "fst (fetchWeatherData ?q no_conditions) = Inr None"
    by blast
  from fetch_never_throws [of ?q no_conditions ?s] old blank null show ?thesis
    unfolding q by blast
qed

end
